theory Spec2Isabelle
  imports Main "HOL-Library.Word" "HOL-Library.Char_ord" "HOL-Library.List_Lexorder"
begin

section \<open>Declaration-signature checking (AssignmentDeclExistCheck.cpp)\<close>

text \<open>
  A shallow embedding of the clang-tidy check \<^verbatim>\<open>misc-assignment-decl-exist\<close>.
  Strings are \<open>char list\<close> (bytes), C \<^verbatim>\<open>int\<close> is \<open>32 word\<close> read with \<open>sint\<close>,
  \<^verbatim>\<open>size_t\<close> positions are \<open>nat\<close>, \<^verbatim>\<open>llvm::Expected<T>\<close> is \<open>error + T\<close>.
\<close>

subsection \<open>Characters and strings\<close>

type_synonym cint = "32 word"

text \<open>\<^verbatim>\<open>s[pos]\<close> on a \<^verbatim>\<open>const std::string\<close>: the byte at \<open>pos\<close>, and the
  terminating NUL at \<open>pos = s.length()\<close>. The parser never reads further.\<close>

definition char_at :: "string \<Rightarrow> nat \<Rightarrow> char" where
  "char_at s pos = (if pos < length s then s ! pos else CHR 0x00)"

text \<open>\<^verbatim>\<open>s.substr(pos, n)\<close> for \<open>pos \<le> length s\<close>.\<close>

definition substr :: "string \<Rightarrow> nat \<Rightarrow> nat \<Rightarrow> string" where
  "substr s pos n = take n (drop pos s)"

text \<open>\<^verbatim>\<open>isalpha\<close> of the C library, in the "C" locale: the ASCII letters.\<close>

definition isalpha :: "char \<Rightarrow> bool" where
  "isalpha c = ((CHR ''a'' \<le> c \<and> c \<le> CHR ''z'') \<or> (CHR ''A'' \<le> c \<and> c \<le> CHR ''Z''))"

text \<open>Modelled from the spec: \<^verbatim>\<open>isAlphanumeric\<close> of clang/Basic/CharInfo.h, which is not
  among the sources. The characters after the first of an identifier are alphanumeric or
  underscores; alphanumeric is an ASCII letter or digit.\<close>

definition isAlphanumeric :: "char \<Rightarrow> bool" where
  "isAlphanumeric c = (isalpha c \<or> (CHR ''0'' \<le> c \<and> c \<le> CHR ''9''))"

subsection \<open>TypeInfo and its rendering\<close>

record TypeInfo =
  isVar :: bool
  name :: string
  pointers :: cint

text \<open>\<^verbatim>\<open>TypeInfo::toString\<close>: an optional \<^verbatim>\<open>%\<close>, the name, and for a positive
  pointer count one space and that many asterisks.\<close>

definition toString :: "TypeInfo \<Rightarrow> string" where
  "toString t =
     (if isVar t then ''%'' else '''') @ name t @
     (if 0 <s pointers t then CHR '' '' # replicate (nat (sint (pointers t))) CHR ''*'' else [])"

subsection \<open>Errors\<close>

text \<open>\<open>ParseTypeError str pos\<close> is the class of that name; \<open>StringError\<close> is the value
  of \<^verbatim>\<open>llvm::createStringError\<close>; \<open>ErrorSuccess\<close> is what \<^verbatim>\<open>takeError()\<close> gives
  on an \<^verbatim>\<open>Expected\<close> that holds a value (it prints as \<^verbatim>\<open>success\<close>).\<close>

datatype error = ParseTypeError string nat | StringError string | ErrorSuccess

subsection \<open>parseType\<close>

text \<open>The three \<^verbatim>\<open>while\<close> loops of \<^verbatim>\<open>parseType\<close>, on the position. The pointer
  count is incremented as a 32-bit value; it would leave the range of \<^verbatim>\<open>int\<close> only on an
  input of \<open>2 ^ 31\<close> asterisks.\<close>

function skipSpaces :: "string \<Rightarrow> nat \<Rightarrow> nat" where
  "skipSpaces s pos = (if char_at s pos = CHR '' '' then skipSpaces s (Suc pos) else pos)"
  by pat_completeness auto
termination
  by (relation "measure (\<lambda>(s, pos). length s - pos)")
     (auto simp: char_at_def split: if_splits)

function scanIdentifier :: "string \<Rightarrow> nat \<Rightarrow> string \<Rightarrow> nat \<times> string" where
  "scanIdentifier s pos identifier =
     (if isAlphanumeric (char_at s pos) \<or> char_at s pos = CHR ''_''
      then scanIdentifier s (Suc pos) (identifier @ [char_at s pos])
      else (pos, identifier))"
  by pat_completeness auto
termination
  by (relation "measure (\<lambda>(s, pos, i). length s - pos)")
     (auto simp: char_at_def isAlphanumeric_def isalpha_def split: if_splits)

function scanAsterisks :: "string \<Rightarrow> nat \<Rightarrow> TypeInfo \<Rightarrow> error + TypeInfo" where
  "scanAsterisks s pos ret =
     (if pos < length s
      then (if char_at s pos = CHR ''*''
            then scanAsterisks s (Suc pos) (ret\<lparr>pointers := pointers ret + 1\<rparr>)
            else Inl (ParseTypeError s pos))
      else Inr ret)"
  by pat_completeness auto
termination
  by (relation "measure (\<lambda>(s, pos, r). length s - pos)") auto

declare skipSpaces.simps [simp del] scanIdentifier.simps [simp del] scanAsterisks.simps [simp del]

definition structPrefix :: string where
  "structPrefix = ''struct ''"

definition parseType :: "string \<Rightarrow> error + TypeInfo" where
  "parseType s =
     (let v = (char_at s 0 = CHR ''%'');
          pos0 = (if v then 1 else 0);
          pos1 = (if substr s pos0 (length structPrefix) = structPrefix
                  then skipSpaces s (pos0 + length structPrefix) else pos0)
      in if \<not> (isalpha (char_at s pos1) \<or> char_at s pos1 = CHR ''_'')
         then Inl (ParseTypeError s pos1)
         else
           (let (pos2, identifier) = scanIdentifier s (Suc pos1) [char_at s pos1];
                ret = \<lparr>isVar = v, name = identifier, pointers = 0\<rparr>
            in if pos2 = length s then Inr ret
               else
                 (let pos3 = skipSpaces s pos2
                  in if pos3 = length s then Inl (ParseTypeError s pos3)
                     else scanAsterisks s pos3 ret)))"

subsection \<open>std::map as a key-ordered association list\<close>

text \<open>A \<^verbatim>\<open>std::map<K, V>\<close> is the list of its entries in increasing key order; iterating
  the map is iterating the list, and \<^verbatim>\<open>operator==\<close> on two maps is equality of the lists.
  Strings are ordered as \<^verbatim>\<open>std::string\<close> orders them (lexicographic on bytes).\<close>

definition sorted_keys :: "('k::linorder \<times> 'v) list \<Rightarrow> bool" where
  "sorted_keys m = sorted_wrt (<) (map fst m)"

text \<open>\<^verbatim>\<open>m.find(k)\<close>: the entry's value, or \<open>None\<close> for \<^verbatim>\<open>m.end()\<close>.\<close>

definition map_find :: "'k \<Rightarrow> ('k \<times> 'v) list \<Rightarrow> 'v option" where
  "map_find k m = map_of m k"

text \<open>\<^verbatim>\<open>m.insert(std::make_pair(k, v))\<close>: an existing entry for \<open>k\<close> is kept.\<close>

fun map_insert :: "'k::linorder \<Rightarrow> 'v \<Rightarrow> ('k \<times> 'v) list \<Rightarrow> ('k \<times> 'v) list" where
  "map_insert k v [] = [(k, v)]"
| "map_insert k v ((k', v') # m) =
     (if k < k' then (k, v) # (k', v') # m
      else if k = k' then (k', v') # m
      else (k', v') # map_insert k v m)"

text \<open>\<^verbatim>\<open>m.erase(it)\<close> for the iterator that \<^verbatim>\<open>m.find(k)\<close> returned.\<close>

definition map_erase :: "'k \<Rightarrow> ('k \<times> 'v) list \<Rightarrow> ('k \<times> 'v) list" where
  "map_erase k m = filter (\<lambda>e. fst e \<noteq> k) m"

text \<open>\<^verbatim>\<open>m[k]++\<close> on a map of \<^verbatim>\<open>int\<close>: a missing entry is created with value 0 first.\<close>

fun map_increment :: "'k::linorder \<Rightarrow> ('k \<times> cint) list \<Rightarrow> ('k \<times> cint) list" where
  "map_increment k [] = [(k, 1)]"
| "map_increment k ((k', c) # m) =
     (if k < k' then (k, 1) # (k', c) # m
      else if k = k' then (k', c + 1) # m
      else (k', c) # map_increment k m)"

definition countOccurrences :: "'k::linorder list \<Rightarrow> ('k \<times> cint) list" where
  "countOccurrences xs = foldl (\<lambda>m x. map_increment x m) [] xs"

subsection \<open>Declarations and their pretty-printers\<close>

type_synonym ParamMap = "(string \<times> cint) list"

record FuncDecl =
  pMap :: ParamMap
  retType :: string

text \<open>Decimal rendering of an \<^verbatim>\<open>int\<close> by \<^verbatim>\<open>operator<<\<close>.\<close>

fun showNat :: "nat \<Rightarrow> string" where
  "showNat n = (if n < 10 then [char_of (48 + n)]
                else showNat (n div 10) @ [char_of (48 + n mod 10)])"

declare showNat.simps [simp del]

definition showInt :: "cint \<Rightarrow> string" where
  "showInt c = (if sint c < 0 then CHR ''-'' # showNat (nat (- sint c)) else showNat (nat (sint c)))"

fun prettyParams :: "ParamMap \<Rightarrow> string" where
  "prettyParams [] = []"
| "prettyParams [(ty, c)] = ty @ '': '' @ showInt c"
| "prettyParams ((ty, c) # m) = ty @ '': '' @ showInt c @ '', '' @ prettyParams m"

definition pretty :: "FuncDecl \<Rightarrow> string" where
  "pretty fd = ''('' @ prettyParams (pMap fd) @ '') -> '' @ retType fd"

definition prettyMapAsStruct :: "ParamMap \<Rightarrow> string" where
  "prettyMapAsStruct m = ''{ '' @ concat (map (\<lambda>(ty, c). ty @ '': '' @ showInt c @ ''; '') m) @ ''};''"

text \<open>The struct \<^verbatim>\<open>Declarations\<close>. Its member \<^verbatim>\<open>functions\<close> is called
  \<open>namedFunctions\<close> here, the source's name being reserved in Isabelle.\<close>

record Declarations =
  namedFunctions :: "(string \<times> FuncDecl) list"
  structs :: "(string \<times> ParamMap) list"
  unnamedFunctions :: "FuncDecl list"
  unnamedStructs :: "ParamMap list"
  varStructs :: "(string \<times> ParamMap) list"

subsection \<open>Global state and the observation callbacks\<close>

type_synonym SourceLocation = nat

record state =
  decls :: Declarations
  foundFuncs :: "(string \<times> FuncDecl) list"
  funcLocMap :: "(string \<times> SourceLocation) list"
  foundStructs :: "(string \<times> ParamMap) list"
  structLocMap :: "(string \<times> SourceLocation) list"

definition emptyDeclarations :: Declarations where
  "emptyDeclarations =
     \<lparr>namedFunctions = [], structs = [], unnamedFunctions = [], unnamedStructs = [], varStructs = []\<rparr>"

text \<open>The globals as they are when the process starts, with the catalog \<open>d\<close> loaded.\<close>

definition initialState :: "Declarations \<Rightarrow> state" where
  "initialState d =
     \<lparr>decls = d, foundFuncs = [], funcLocMap = [], foundStructs = [], structLocMap = []\<rparr>"

text \<open>What the front end hands over. A \<^verbatim>\<open>QualType\<close> is represented by the string that
  \<^verbatim>\<open>getUnqualifiedType().getAsString()\<close> prints for it.\<close>

record FunctionDecl =
  funName :: string
  funParameters :: "string list"
  funReturnType :: string
  funLocation :: SourceLocation

record RecordDecl =
  recName :: string
  recFields :: "string list"
  recLocation :: SourceLocation

record TypedefDecl =
  tdName :: string
  tdUnderlyingRecord :: "RecordDecl option"

datatype MatchResult = MatchedFun FunctionDecl | MatchedStruct RecordDecl | MatchedTypedef TypedefDecl

definition removeStructPrefix :: "string \<Rightarrow> string" where
  "removeStructPrefix s = (if take (length ''struct '') s = ''struct '' then drop (length ''struct '') s else s)"

definition cleanTypeString :: "string \<Rightarrow> string" where
  "cleanTypeString t = removeStructPrefix t"

definition checkFun :: "FunctionDecl \<Rightarrow> state \<Rightarrow> state" where
  "checkFun decl st =
     (let nm = funName decl
      in if nm = ''main'' then st
         else
           (let typeStrings = map cleanTypeString (funParameters decl);
                ret = cleanTypeString (funReturnType decl);
                currentFunc = \<lparr>pMap = countOccurrences typeStrings, retType = ret\<rparr>
            in st\<lparr>foundFuncs := map_insert nm currentFunc (foundFuncs st),
                  funcLocMap := map_insert nm (funLocation decl) (funcLocMap st)\<rparr>))"

definition checkStruct :: "RecordDecl \<Rightarrow> string option \<Rightarrow> state \<Rightarrow> state" where
  "checkStruct decl n st =
     (let nm = (case n of Some x \<Rightarrow> x | None \<Rightarrow> recName decl);
          typeStrings = map cleanTypeString (recFields decl);
          currentStruct = countOccurrences typeStrings
      in st\<lparr>foundStructs := map_insert nm currentStruct (foundStructs st),
            structLocMap := map_insert nm (recLocation decl) (structLocMap st)\<rparr>)"

definition checkTypedef :: "TypedefDecl \<Rightarrow> state \<Rightarrow> state" where
  "checkTypedef decl st =
     (case tdUnderlyingRecord decl of None \<Rightarrow> st | Some d \<Rightarrow> checkStruct d (Some (tdName decl)) st)"

fun check :: "MatchResult \<Rightarrow> state \<Rightarrow> state" where
  "check (MatchedFun f) st = checkFun f st"
| "check (MatchedStruct r) st = checkStruct r None st"
| "check (MatchedTypedef t) st = checkTypedef t st"

text \<open>One pass of the front end: \<^verbatim>\<open>check\<close> is called once per matched node, in
  traversal order.\<close>

definition observe :: "MatchResult list \<Rightarrow> state \<Rightarrow> state" where
  "observe nodes st = fold check nodes st"

subsection \<open>Messages written to the error stream\<close>

text \<open>Each constructor is one line that the code writes to \<^verbatim>\<open>llvm::errs()\<close>:
  \<open>RedundantVariable v\<close> is "Redundant variable '%' in v, skipped",
  \<open>UnexpectedPointers v\<close> is "Unexpected pointer asterisks in v, skipped",
  \<open>ErrorSkipped e\<close> is "e, skipped", \<open>DeclSkipped e n\<close> is "e, skipped n" (or "e skipped n"),
  \<open>ErrorOpening f m\<close> is "Error opening json file: f: m", \<open>UnableToParse f\<close> is
  "Unable to parse json file f", \<open>DeclarationsError r\<close> is "Declarations: r",
  \<open>OverlapFunction p\<close> is "Unnamed function declaration p has a named counterpart" and
  \<open>OverlapStruct p\<close> the same for a struct.\<close>

datatype segment = AtField string | AtIndex nat

record Report =
  reportMessage :: string
  reportPath :: "segment list"

datatype message =
    RedundantVariable string
  | UnexpectedPointers string
  | ErrorSkipped error
  | DeclSkipped error string
  | ErrorOpening string string
  | UnableToParse string
  | DeclarationsError Report
  | OverlapFunction string
  | OverlapStruct string

subsection \<open>Placeholder variables\<close>

type_synonym VarMap = "(string \<times> string) list"

definition associateVar :: "string \<Rightarrow> string \<Rightarrow> VarMap \<times> message list \<Rightarrow> VarMap \<times> message list" where
  "associateVar var target acc =
     (case acc of (varMap, errs) \<Rightarrow>
        (case parseType var of
           Inr t \<Rightarrow>
             if isVar t then (varMap, errs @ [RedundantVariable var])
             else if 0 <s pointers t then (varMap, errs @ [UnexpectedPointers var])
             else (map_insert (name t) target varMap, errs)
         | Inl e \<Rightarrow> (varMap, errs @ [ErrorSkipped e])))"

definition resolveVar :: "string \<Rightarrow> VarMap \<Rightarrow> error + string" where
  "resolveVar var varMap =
     (case parseType var of
        Inr t \<Rightarrow>
          if \<not> isVar t then Inr (name t)
          else (case map_find (name t) varMap of
                  None \<Rightarrow> Inl (StringError (''No such variable: '' @ name t))
                | Some target \<Rightarrow>
                    Inr (toString \<lparr>isVar = False, name = target, pointers = pointers t\<rparr>))
      | Inl e \<Rightarrow> Inl e)"

text \<open>The loop of \<^verbatim>\<open>resolveParams\<close>, with \<open>ret\<close> the map built so far. When
  \<^verbatim>\<open>resolveVar\<close> fails the code returns \<^verbatim>\<open>maybeType.takeError()\<close>, the error of the
  successful parse, hence \<open>ErrorSuccess\<close>. (With assertions compiled out, as in the release
  build the README asks for, the \<^verbatim>\<open>Expected\<close> built from it is in its error state.)\<close>

fun resolveParamsFrom :: "ParamMap \<Rightarrow> VarMap \<Rightarrow> ParamMap \<Rightarrow> error + ParamMap" where
  "resolveParamsFrom [] varMap ret = Inr ret"
| "resolveParamsFrom (it # params) varMap ret =
     (case parseType (fst it) of
        Inr t \<Rightarrow>
          (case resolveVar (fst it) varMap of
             Inr var \<Rightarrow> resolveParamsFrom params varMap (map_insert var (snd it) ret)
           | Inl e \<Rightarrow> Inl ErrorSuccess)
      | Inl e \<Rightarrow> Inl e)"

definition resolveParams :: "ParamMap \<Rightarrow> VarMap \<Rightarrow> error + ParamMap" where
  "resolveParams params varMap = resolveParamsFrom params varMap []"

definition resolveFunction :: "FuncDecl \<Rightarrow> VarMap \<Rightarrow> error + FuncDecl" where
  "resolveFunction params varMap =
     (case resolveParams (pMap params) varMap of
        Inl e \<Rightarrow> Inl e
      | Inr ps \<Rightarrow>
          (case resolveVar (retType params) varMap of
             Inl e \<Rightarrow> Inl e
           | Inr r \<Rightarrow> Inr \<lparr>pMap = ps, retType = r\<rparr>))"

subsection \<open>onEndOfTranslationUnit\<close>

text \<open>Binding: every template of \<^verbatim>\<open>decls.varStructs\<close> against every observed struct.\<close>

definition bindVariables ::
    "(string \<times> ParamMap) list \<Rightarrow> (string \<times> ParamMap) list \<Rightarrow> VarMap \<times> message list" where
  "bindVariables vars found =
     fold (\<lambda>var. fold (\<lambda>fnd acc. if snd var = snd fnd
                                  then associateVar (fst var) (fst fnd) acc else acc) found)
          vars ([], [])"

text \<open>The five resolution loops. A declaration that does not resolve leaves a message and
  is not copied.\<close>

definition resolveNamedFunctions ::
    "(string \<times> FuncDecl) list \<Rightarrow> VarMap \<Rightarrow> (string \<times> FuncDecl) list \<times> message list" where
  "resolveNamedFunctions fs varMap =
     fold (\<lambda>func (funcs, errs).
             case resolveFunction (snd func) varMap of
               Inr f \<Rightarrow> (map_insert (fst func) f funcs, errs)
             | Inl e \<Rightarrow> (funcs, errs @ [DeclSkipped e (fst func)]))
          fs ([], [])"

definition resolveNamedStructs ::
    "(string \<times> ParamMap) list \<Rightarrow> VarMap \<Rightarrow> (string \<times> ParamMap) list \<times> message list" where
  "resolveNamedStructs ss varMap =
     fold (\<lambda>param (strs, errs).
             case resolveParams (snd param) varMap of
               Inr p \<Rightarrow> (map_insert (fst param) p strs, errs)
             | Inl e \<Rightarrow> (strs, errs @ [DeclSkipped e (fst param)]))
          ss ([], [])"

definition resolveUnnamedFunctions ::
    "FuncDecl list \<Rightarrow> VarMap \<Rightarrow> FuncDecl list \<times> message list" where
  "resolveUnnamedFunctions fs varMap =
     fold (\<lambda>func (funcs, errs).
             case resolveFunction func varMap of
               Inr f \<Rightarrow> (funcs @ [f], errs)
             | Inl e \<Rightarrow> (funcs, errs @ [DeclSkipped e (pretty func)]))
          fs ([], [])"

definition resolveUnnamedStructs ::
    "ParamMap list \<Rightarrow> VarMap \<Rightarrow> ParamMap list \<times> message list" where
  "resolveUnnamedStructs rs varMap =
     fold (\<lambda>rcd (strs, errs).
             case resolveParams rcd varMap of
               Inr r \<Rightarrow> (strs @ [r], errs)
             | Inl e \<Rightarrow> (strs, errs @ [DeclSkipped e (prettyMapAsStruct rcd)]))
          rs ([], [])"

text \<open>A diagnostic of \<^verbatim>\<open>diag(loc, "Expected %0 but got %1")\<close>. The location is the
  result of \<^verbatim>\<open>funcLocMap.find(name)\<close>: \<open>None\<close> stands for the end iterator, which the
  code dereferences without a test.\<close>

record Diagnostic =
  location :: "SourceLocation option"
  expected :: string
  actual :: string

text \<open>The body of the loop over \<^verbatim>\<open>foundFuncs\<close>.\<close>

definition matchFunction ::
    "(string \<times> SourceLocation) list \<Rightarrow> string \<times> FuncDecl \<Rightarrow>
     (string \<times> FuncDecl) list \<times> FuncDecl list \<times> Diagnostic list \<Rightarrow>
     (string \<times> FuncDecl) list \<times> FuncDecl list \<times> Diagnostic list" where
  "matchFunction locs func acc =
     (case acc of (funcs, unnamedFuncs, diags) \<Rightarrow>
        (case map_find (fst func) funcs of
           Some named \<Rightarrow>
             (map_erase (fst func) funcs, unnamedFuncs,
              if snd func \<noteq> named
              then diags @ [\<lparr>location = map_find (fst func) locs,
                              expected = pretty named, actual = pretty (snd func)\<rparr>]
              else diags)
         | None \<Rightarrow> (funcs, remove1 (snd func) unnamedFuncs, diags)))"

definition matchFunctions ::
    "(string \<times> SourceLocation) list \<Rightarrow> (string \<times> FuncDecl) list \<Rightarrow>
     (string \<times> FuncDecl) list \<times> FuncDecl list \<times> Diagnostic list \<Rightarrow>
     (string \<times> FuncDecl) list \<times> FuncDecl list \<times> Diagnostic list" where
  "matchFunctions locs found acc = fold (matchFunction locs) found acc"

text \<open>The body of the loop over \<^verbatim>\<open>foundStructs\<close>; the location comes from
  \<^verbatim>\<open>funcLocMap\<close> here too.\<close>

definition matchStruct ::
    "(string \<times> SourceLocation) list \<Rightarrow> string \<times> ParamMap \<Rightarrow>
     (string \<times> ParamMap) list \<times> (string \<times> ParamMap) list \<times> ParamMap list \<times> Diagnostic list \<Rightarrow>
     (string \<times> ParamMap) list \<times> (string \<times> ParamMap) list \<times> ParamMap list \<times> Diagnostic list" where
  "matchStruct locs rcd acc =
     (case acc of (strs, varStrs, unnamedStrs, diags) \<Rightarrow>
        (case map_find (fst rcd) strs of
           Some named \<Rightarrow>
             (map_erase (fst rcd) strs, varStrs, unnamedStrs,
              if snd rcd \<noteq> named
              then diags @ [\<lparr>location = map_find (fst rcd) locs,
                              expected = prettyMapAsStruct named,
                              actual = prettyMapAsStruct (snd rcd)\<rparr>]
              else diags)
         | None \<Rightarrow>
             (case find (\<lambda>pm. snd pm = snd rcd) varStrs of
                Some var \<Rightarrow> (strs, remove1 var varStrs, unnamedStrs, diags)
              | None \<Rightarrow> (strs, varStrs, remove1 (snd rcd) unnamedStrs, diags))))"

definition matchStructs ::
    "(string \<times> SourceLocation) list \<Rightarrow> (string \<times> ParamMap) list \<Rightarrow>
     (string \<times> ParamMap) list \<times> (string \<times> ParamMap) list \<times> ParamMap list \<times> Diagnostic list \<Rightarrow>
     (string \<times> ParamMap) list \<times> (string \<times> ParamMap) list \<times> ParamMap list \<times> Diagnostic list" where
  "matchStructs locs found acc = fold (matchStruct locs) found acc"

text \<open>What one run of \<^verbatim>\<open>onEndOfTranslationUnit\<close> produces: the skip messages, the
  diagnostics in the order they are emitted, and what is left of the five resolved
  collections.\<close>

record Output =
  skipped :: "message list"
  diagnostics :: "Diagnostic list"
  missingFunctions :: "(string \<times> FuncDecl) list"
  missingStructs :: "(string \<times> ParamMap) list"
  missingUnnamedFunctions :: "FuncDecl list"
  missingUnnamedStructs :: "ParamMap list"
  missingVarStructs :: "(string \<times> ParamMap) list"

definition onEndOfTranslationUnit :: "state \<Rightarrow> Output" where
  "onEndOfTranslationUnit st =
     (let (varMap, e0) = bindVariables (varStructs (decls st)) (foundStructs st);
          (funcs, e1) = resolveNamedFunctions (namedFunctions (decls st)) varMap;
          (strs, e2) = resolveNamedStructs (structs (decls st)) varMap;
          (unnamedFuncs, e3) = resolveUnnamedFunctions (unnamedFunctions (decls st)) varMap;
          (unnamedStrs, e4) = resolveUnnamedStructs (unnamedStructs (decls st)) varMap;
          (varStrs, e5) = resolveNamedStructs (varStructs (decls st)) varMap;
          (funcs', unnamedFuncs', d1) =
             matchFunctions (funcLocMap st) (foundFuncs st) (funcs, unnamedFuncs, []);
          (strs', varStrs', unnamedStrs', d2) =
             matchStructs (funcLocMap st) (foundStructs st) (strs, varStrs, unnamedStrs, d1)
      in \<lparr>skipped = e0 @ e1 @ e2 @ e3 @ e4 @ e5,
          diagnostics = d2,
          missingFunctions = funcs',
          missingStructs = strs',
          missingUnnamedFunctions = unnamedFuncs',
          missingUnnamedStructs = unnamedStrs',
          missingVarStructs = varStrs'\<rparr>)"

text \<open>The closing report: a section is printed only when it is not empty.\<close>

definition reportSection :: "string \<Rightarrow> string list \<Rightarrow> string list" where
  "reportSection title items = (if items = [] then [] else title # items)"

definition missingReport :: "Output \<Rightarrow> string list" where
  "missingReport out =
     reportSection ''MISSING NAMED FUNCTION(s):'' (map fst (missingFunctions out)) @
     reportSection ''MISSING NAMED STRUCT(s):'' (map fst (missingStructs out)) @
     reportSection ''MISSING UNNAMED FUNCTION(s):'' (map pretty (missingUnnamedFunctions out)) @
     reportSection ''MISSING UNNAMED STRUCT(s):'' (map prettyMapAsStruct (missingUnnamedStructs out)) @
     reportSection ''MISSING VARIABLE STRUCT(s):'' (map fst (missingVarStructs out))"

subsection \<open>Loading the configuration\<close>

text \<open>A parsed JSON document. \<open>JInteger\<close> is a number that \<^verbatim>\<open>getAsInteger\<close> accepts,
  \<open>JDouble\<close> one that it does not. An object is the list of its members.\<close>

datatype json =
    JNull
  | JBool bool
  | JInteger int
  | JDouble
  | JString string
  | JArray "json list"
  | JObject "(string \<times> json) list"

text \<open>\<^verbatim>\<open>P.report(msg)\<close> at the path \<open>P\<close> (the segments below the root
  \<^verbatim>\<open>Declarations\<close>).\<close>

definition report :: "string \<Rightarrow> segment list \<Rightarrow> Report" where
  "report msg P = \<lparr>reportMessage = msg, reportPath = P\<rparr>"

text \<open>A word between apostrophes, as in the messages of \<^verbatim>\<open>fromJSON\<close>.\<close>

definition quoted :: "string \<Rightarrow> string" where
  "quoted s = CHR 0x27 # s @ [CHR 0x27]"

text \<open>\<^verbatim>\<open>Out[k] = v\<close> on a \<^verbatim>\<open>std::map\<close>.\<close>

fun map_assign :: "'k::linorder \<Rightarrow> 'v \<Rightarrow> ('k \<times> 'v) list \<Rightarrow> ('k \<times> 'v) list" where
  "map_assign k v [] = [(k, v)]"
| "map_assign k v ((k', v') # m) =
     (if k < k' then (k, v) # (k', v') # m
      else if k = k' then (k, v) # m
      else (k', v') # map_assign k v m)"

text \<open>Modelled from the spec: the overloads of \<^verbatim>\<open>llvm::json::fromJSON\<close> for
  \<^verbatim>\<open>int\<close>, \<^verbatim>\<open>std::string\<close>, \<^verbatim>\<open>std::map<std::string, T>\<close> and \<^verbatim>\<open>std::vector<T>\<close>
  (llvm/Support/JSON.h, which is not among the sources). The configuration format has
  type strings mapped to integer counts, a string for the return type, objects keyed by
  name and arrays of anonymous declarations; loading is strict and any wrong shape ends
  the load with an error at the path of the member. The 64-bit integer is narrowed to
  \<^verbatim>\<open>int\<close>.\<close>

definition fromJSON_int :: "json \<Rightarrow> segment list \<Rightarrow> Report + cint" where
  "fromJSON_int E P =
     (case E of JInteger i \<Rightarrow> Inr (word_of_int i) | _ \<Rightarrow> Inl (report ''expected integer'' P))"

definition fromJSON_string :: "json \<Rightarrow> segment list \<Rightarrow> Report + string" where
  "fromJSON_string E P =
     (case E of JString s \<Rightarrow> Inr s | _ \<Rightarrow> Inl (report ''expected string'' P))"

fun fromJSON_members ::
    "(json \<Rightarrow> segment list \<Rightarrow> Report + 'a) \<Rightarrow> (string \<times> json) list \<Rightarrow> segment list \<Rightarrow>
     (string \<times> 'a) list \<Rightarrow> Report + (string \<times> 'a) list" where
  "fromJSON_members elem [] P out = Inr out"
| "fromJSON_members elem (kv # kvs) P out =
     (case elem (snd kv) (P @ [AtField (fst kv)]) of
        Inl r \<Rightarrow> Inl r
      | Inr x \<Rightarrow> fromJSON_members elem kvs P (map_assign (fst kv) x out))"

definition fromJSON_map ::
    "(json \<Rightarrow> segment list \<Rightarrow> Report + 'a) \<Rightarrow> json \<Rightarrow> segment list \<Rightarrow>
     Report + (string \<times> 'a) list" where
  "fromJSON_map elem E P =
     (case E of JObject kvs \<Rightarrow> fromJSON_members elem kvs P []
      | _ \<Rightarrow> Inl (report ''expected object'' P))"

fun fromJSON_elements ::
    "(json \<Rightarrow> segment list \<Rightarrow> Report + 'a) \<Rightarrow> json list \<Rightarrow> segment list \<Rightarrow> nat \<Rightarrow>
     'a list \<Rightarrow> Report + 'a list" where
  "fromJSON_elements elem [] P i out = Inr out"
| "fromJSON_elements elem (v # vs) P i out =
     (case elem v (P @ [AtIndex i]) of
        Inl r \<Rightarrow> Inl r
      | Inr x \<Rightarrow> fromJSON_elements elem vs P (Suc i) (out @ [x]))"

definition fromJSON_vector ::
    "(json \<Rightarrow> segment list \<Rightarrow> Report + 'a) \<Rightarrow> json \<Rightarrow> segment list \<Rightarrow> Report + 'a list" where
  "fromJSON_vector elem E P =
     (case E of JArray vs \<Rightarrow> fromJSON_elements elem vs P 0 []
      | _ \<Rightarrow> Inl (report ''expected array'' P))"

definition fromJSON_ParamMap :: "json \<Rightarrow> segment list \<Rightarrow> Report + ParamMap" where
  "fromJSON_ParamMap = fromJSON_map fromJSON_int"

text \<open>\<^verbatim>\<open>jsonObj->get(key)\<close>.\<close>

definition get :: "(string \<times> json) list \<Rightarrow> string \<Rightarrow> json option" where
  "get jsonObj key = map_of jsonObj key"

text \<open>The overload of \<^verbatim>\<open>fromJSON\<close> for \<^verbatim>\<open>FuncDecl\<close>. The result is the error report or
  the loaded value; what a failed load has already written is not represented.\<close>

definition fromJSON_FuncDecl :: "json \<Rightarrow> segment list \<Rightarrow> Report + FuncDecl" where
  "fromJSON_FuncDecl E P =
     (case E of
        JObject jsonObj \<Rightarrow>
          (case get jsonObj ''params'' of
             None \<Rightarrow> Inl (report (''expected property '' @ quoted ''params'') P)
           | Some params \<Rightarrow>
               (case get jsonObj ''return'' of
                  None \<Rightarrow> Inl (report (''expected property '' @ quoted ''return'') P)
                | Some ret \<Rightarrow>
                    (case fromJSON_ParamMap params P of
                       Inl r \<Rightarrow> Inl r
                     | Inr pm \<Rightarrow>
                         (case fromJSON_string ret P of
                            Inl r \<Rightarrow> Inl r
                          | Inr rt \<Rightarrow> Inr \<lparr>pMap = pm, retType = rt\<rparr>))))
      | _ \<Rightarrow> Inl (report ''expected object'' P))"

text \<open>One optional member of the top-level object: absent, it leaves the field as it is.\<close>

definition optionalMember ::
    "(string \<times> json) list \<Rightarrow> string \<Rightarrow> (json \<Rightarrow> segment list \<Rightarrow> Report + 'a) \<Rightarrow>
     segment list \<Rightarrow> 'a \<Rightarrow> Report + 'a" where
  "optionalMember jsonObj key load P old =
     (case get jsonObj key of None \<Rightarrow> Inr old | Some v \<Rightarrow> load v P)"

text \<open>The overload of \<^verbatim>\<open>fromJSON\<close> for \<^verbatim>\<open>Declarations\<close>, reading into \<open>out\<close>.\<close>

definition fromJSON_Declarations ::
    "json \<Rightarrow> Declarations \<Rightarrow> segment list \<Rightarrow> Report + Declarations" where
  "fromJSON_Declarations E out P =
     (case E of
        JObject jsonObj \<Rightarrow>
          (case optionalMember jsonObj ''functions'' (fromJSON_map fromJSON_FuncDecl) P
                  (namedFunctions out) of
             Inl r \<Rightarrow> Inl r
           | Inr fs \<Rightarrow>
          (case optionalMember jsonObj ''structs'' (fromJSON_map fromJSON_ParamMap) P
                  (structs out) of
             Inl r \<Rightarrow> Inl r
           | Inr ss \<Rightarrow>
          (case optionalMember jsonObj ''functions*'' (fromJSON_vector fromJSON_FuncDecl) P
                  (unnamedFunctions out) of
             Inl r \<Rightarrow> Inl r
           | Inr ufs \<Rightarrow>
          (case optionalMember jsonObj ''structs*'' (fromJSON_vector fromJSON_ParamMap) P
                  (unnamedStructs out) of
             Inl r \<Rightarrow> Inl r
           | Inr uss \<Rightarrow>
          (case optionalMember jsonObj ''%structs'' (fromJSON_map fromJSON_ParamMap) P
                  (varStructs out) of
             Inl r \<Rightarrow> Inl r
           | Inr vss \<Rightarrow>
               Inr \<lparr>namedFunctions = fs, structs = ss, unnamedFunctions = ufs,
                    unnamedStructs = uss, varStructs = vss\<rparr>)))))
      | _ \<Rightarrow> Inl (report ''expected object'' P))"

subsection \<open>registerMatchers\<close>

text \<open>A call either ends the process (\<^verbatim>\<open>exit\<close>) or returns; both carry what was
  written to the error stream.\<close>

datatype 'a outcome = Exited "message list" nat | Returned "message list" 'a

definition EXIT_FAILURE :: nat where
  "EXIT_FAILURE = 1"

text \<open>What \<^verbatim>\<open>MemoryBuffer::getFile\<close> and \<^verbatim>\<open>json::parse\<close> make of the file: it cannot be
  opened (with the system's message), its text is not JSON, or it is a JSON value.\<close>

datatype FileContents = CannotOpen string | NotJson | Json json

definition readJsonFile :: "string \<Rightarrow> FileContents \<Rightarrow> json outcome" where
  "readJsonFile FileName file =
     (case file of
        CannotOpen m \<Rightarrow> Exited [ErrorOpening FileName m] EXIT_FAILURE
      | NotJson \<Rightarrow> Exited [UnableToParse FileName] EXIT_FAILURE
      | Json j \<Rightarrow> Returned [] j)"

definition checkOverlappingDefinitions :: "Declarations \<Rightarrow> unit outcome" where
  "checkOverlappingDefinitions d =
     (let funcs = map snd (namedFunctions d);
          strs = map snd (structs d)
      in case find (\<lambda>it. count_list funcs it \<noteq> 0) (unnamedFunctions d) of
           Some it \<Rightarrow> Exited [OverlapFunction (pretty it)] EXIT_FAILURE
         | None \<Rightarrow>
             (case find (\<lambda>it. count_list strs it \<noteq> 0) (unnamedStructs d) of
                Some it \<Rightarrow> Exited [OverlapStruct (prettyMapAsStruct it)] EXIT_FAILURE
              | None \<Rightarrow> Returned [] ()))"

text \<open>The result of \<^verbatim>\<open>registerMatchers\<close> when it returns: either no matcher was added,
  or the three matchers were added and \<^verbatim>\<open>decls\<close> holds the loaded catalog.\<close>

datatype Registration = NoMatchers | MatchersAdded Declarations

text \<open>\<^verbatim>\<open>registerMatchers\<close> as it is in AssignmentDeclExistCheck.cpp: the call of
  \<^verbatim>\<open>checkOverlappingDefinitions\<close> is commented out.\<close>

definition registerMatchers ::
    "string \<Rightarrow> FileContents \<Rightarrow> Declarations \<Rightarrow> Registration outcome" where
  "registerMatchers DeclFile file d =
     (if DeclFile = [] then Returned [] NoMatchers
      else
        (case readJsonFile DeclFile file of
           Exited errs code \<Rightarrow> Exited errs code
         | Returned errs j \<Rightarrow>
             (case fromJSON_Declarations j d [] of
                Inl r \<Rightarrow> Returned (errs @ [DeclarationsError r]) NoMatchers
              | Inr d' \<Rightarrow> Returned errs (MatchersAdded d'))))"

text \<open>The earlier revision of the file (without \<^verbatim>\<open>%structs\<close>), where
  \<^verbatim>\<open>registerMatchers\<close> calls \<^verbatim>\<open>checkOverlappingDefinitions\<close> after a successful load.\<close>

definition fromJSON_Declarations_earlier ::
    "json \<Rightarrow> Declarations \<Rightarrow> segment list \<Rightarrow> Report + Declarations" where
  "fromJSON_Declarations_earlier E out P =
     (case E of
        JObject jsonObj \<Rightarrow>
          (case optionalMember jsonObj ''functions'' (fromJSON_map fromJSON_FuncDecl) P
                  (namedFunctions out) of
             Inl r \<Rightarrow> Inl r
           | Inr fs \<Rightarrow>
          (case optionalMember jsonObj ''structs'' (fromJSON_map fromJSON_ParamMap) P
                  (structs out) of
             Inl r \<Rightarrow> Inl r
           | Inr ss \<Rightarrow>
          (case optionalMember jsonObj ''functions*'' (fromJSON_vector fromJSON_FuncDecl) P
                  (unnamedFunctions out) of
             Inl r \<Rightarrow> Inl r
           | Inr ufs \<Rightarrow>
          (case optionalMember jsonObj ''structs*'' (fromJSON_vector fromJSON_ParamMap) P
                  (unnamedStructs out) of
             Inl r \<Rightarrow> Inl r
           | Inr uss \<Rightarrow>
               Inr (out\<lparr>namedFunctions := fs, structs := ss, unnamedFunctions := ufs,
                        unnamedStructs := uss\<rparr>)))))
      | _ \<Rightarrow> Inl (report ''expected object'' P))"

definition registerMatchers_earlier ::
    "string \<Rightarrow> FileContents \<Rightarrow> Declarations \<Rightarrow> Registration outcome" where
  "registerMatchers_earlier DeclFile file d =
     (if DeclFile = [] then Returned [] NoMatchers
      else
        (case readJsonFile DeclFile file of
           Exited errs code \<Rightarrow> Exited errs code
         | Returned errs j \<Rightarrow>
             (case fromJSON_Declarations_earlier j d [] of
                Inl r \<Rightarrow> Returned (errs @ [DeclarationsError r]) NoMatchers
              | Inr d' \<Rightarrow>
                  (case checkOverlappingDefinitions d' of
                     Exited errs' code \<Rightarrow> Exited (errs @ errs') code
                   | Returned errs' u \<Rightarrow> Returned (errs @ errs') (MatchersAdded d')))))"

subsection \<open>Notions used to state the properties\<close>

text \<open>A character that continues an identifier, and a valid identifier: the first
  character alphabetic or an underscore, the others alphanumeric or underscores.\<close>

definition isIdentifierChar :: "char \<Rightarrow> bool" where
  "isIdentifierChar c = (isAlphanumeric c \<or> c = CHR ''_'')"

definition validIdentifier :: "string \<Rightarrow> bool" where
  "validIdentifier nm =
     (nm \<noteq> [] \<and> (isalpha (hd nm) \<or> hd nm = CHR ''_'') \<and> (\<forall>c \<in> set (tl nm). isIdentifierChar c))"

text \<open>The function declarations and the records (with the name each is stored under) among
  the nodes of a pass, in traversal order, and what \<^verbatim>\<open>checkFun\<close> and \<^verbatim>\<open>checkStruct\<close>
  compute from a declaration.\<close>

definition functionNodes :: "MatchResult list \<Rightarrow> FunctionDecl list" where
  "functionNodes nodes =
     concat (map (\<lambda>n. case n of MatchedFun f \<Rightarrow> [f] | _ \<Rightarrow> []) nodes)"

definition recordNodes :: "MatchResult list \<Rightarrow> (string \<times> RecordDecl) list" where
  "recordNodes nodes =
     concat (map (\<lambda>n. case n of
                         MatchedFun f \<Rightarrow> []
                       | MatchedStruct r \<Rightarrow> [(recName r, r)]
                       | MatchedTypedef t \<Rightarrow>
                           (case tdUnderlyingRecord t of None \<Rightarrow> [] | Some r \<Rightarrow> [(tdName t, r)]))
                 nodes)"

definition signatureOf :: "FunctionDecl \<Rightarrow> FuncDecl" where
  "signatureOf f =
     \<lparr>pMap = countOccurrences (map cleanTypeString (funParameters f)),
      retType = cleanTypeString (funReturnType f)\<rparr>"

definition shapeOf :: "RecordDecl \<Rightarrow> ParamMap" where
  "shapeOf r = countOccurrences (map cleanTypeString (recFields r))"

definition isMainFunction :: "MatchResult \<Rightarrow> bool" where
  "isMainFunction n = (case n of MatchedFun f \<Rightarrow> funName f = ''main'' | _ \<Rightarrow> False)"

text \<open>The binding map and the resolved named collections that the matching loops of
  \<^verbatim>\<open>onEndOfTranslationUnit\<close> start from (the locals \<^verbatim>\<open>varMap\<close>, \<^verbatim>\<open>funcs\<close> and
  \<^verbatim>\<open>structs\<close>).\<close>

definition bindings :: "state \<Rightarrow> VarMap" where
  "bindings st = fst (bindVariables (varStructs (decls st)) (foundStructs st))"

definition resolvedFunctions :: "state \<Rightarrow> (string \<times> FuncDecl) list" where
  "resolvedFunctions st = fst (resolveNamedFunctions (namedFunctions (decls st)) (bindings st))"

definition resolvedStructs :: "state \<Rightarrow> (string \<times> ParamMap) list" where
  "resolvedStructs st = fst (resolveNamedStructs (structs (decls st)) (bindings st))"

text \<open>The diagnostics for the observed functions (structs) whose name is expected with
  another signature (shape), in the order of the observed map.\<close>

definition functionMismatches ::
    "(string \<Rightarrow> SourceLocation option) \<Rightarrow> (string \<times> FuncDecl) list \<Rightarrow> (string \<times> FuncDecl) list \<Rightarrow>
     Diagnostic list" where
  "functionMismatches loc funcs found =
     concat (map (\<lambda>func. case map_find (fst func) funcs of
                            None \<Rightarrow> []
                          | Some named \<Rightarrow>
                              if snd func \<noteq> named
                              then [\<lparr>location = loc (fst func), expected = pretty named,
                                     actual = pretty (snd func)\<rparr>]
                              else [])
                 found)"

definition structMismatches ::
    "(string \<Rightarrow> SourceLocation option) \<Rightarrow> (string \<times> ParamMap) list \<Rightarrow> (string \<times> ParamMap) list \<Rightarrow>
     Diagnostic list" where
  "structMismatches loc strs found =
     concat (map (\<lambda>rcd. case map_find (fst rcd) strs of
                           None \<Rightarrow> []
                         | Some named \<Rightarrow>
                             if snd rcd \<noteq> named
                             then [\<lparr>location = loc (fst rcd), expected = prettyMapAsStruct named,
                                    actual = prettyMapAsStruct (snd rcd)\<rparr>]
                             else [])
                 found)"


text \<open>Examples used to exercise the properties below.\<close>

definition twoDeclarationsOfF :: "MatchResult list" where
  "twoDeclarationsOfF =
     [MatchedFun \<lparr>funName = ''f'', funParameters = [''int''], funReturnType = ''void'',
                  funLocation = 1\<rparr>,
      MatchedFun \<lparr>funName = ''f'', funParameters = [''char''], funReturnType = ''void'',
                  funLocation = 2\<rparr>]"

definition twoDeclarationsOfS :: "MatchResult list" where
  "twoDeclarationsOfS =
     [MatchedStruct \<lparr>recName = ''S'', recFields = [''int''], recLocation = 1\<rparr>,
      MatchedStruct \<lparr>recName = ''S'', recFields = [''char''], recLocation = 2\<rparr>]"


definition fooObserved :: "MatchResult list" where
  "fooObserved =
     [MatchedFun \<lparr>funName = ''foo'', funParameters = [''int'', ''char''], funReturnType = ''int'',
                  funLocation = 7\<rparr>]"









text \<open>One step of a resolution loop, seen from its two results: the entry that is
  copied when the declaration resolves, and the message that is written when it does not.\<close>

definition resolvedEntry :: "('d \<Rightarrow> error + 'r) \<Rightarrow> string \<times> 'd \<Rightarrow> (string \<times> 'r) option" where
  "resolvedEntry res e = (case res (snd e) of Inr r \<Rightarrow> Some (fst e, r) | Inl x \<Rightarrow> None)"

definition skippedEntry :: "('d \<Rightarrow> error + 'r) \<Rightarrow> ('d \<Rightarrow> string) \<Rightarrow> 'd \<Rightarrow> message option" where
  "skippedEntry res label e = (case res e of Inr r \<Rightarrow> None | Inl x \<Rightarrow> Some (DeclSkipped x (label e)))"




definition mainCatalog :: Declarations where
  "mainCatalog =
     emptyDeclarations\<lparr>namedFunctions := [(''main'', \<lparr>pMap = [], retType = ''int''\<rparr>)]\<rparr>"

definition mainUnboundCatalog :: Declarations where
  "mainUnboundCatalog =
     emptyDeclarations\<lparr>namedFunctions := [(''main'', \<lparr>pMap = [(''%U'', 1)], retType = ''int''\<rparr>)]\<rparr>"

definition mainObserved :: "MatchResult list" where
  "mainObserved =
     [MatchedFun \<lparr>funName = ''main'', funParameters = [''int'', ''char **''],
                  funReturnType = ''int'', funLocation = 9\<rparr>]"







definition overlapConfig :: json where
  "overlapConfig =
     JObject [(''functions'',
               JObject [(''foo'', JObject [(''params'', JObject [(''int'', JInteger 1)]),
                                          (''return'', JString ''int'')])]),
              (''functions*'',
               JArray [JObject [(''params'', JObject [(''int'', JInteger 1)]),
                                (''return'', JString ''int'')]])]"

definition overlapCatalog :: Declarations where
  "overlapCatalog =
     emptyDeclarations
       \<lparr>namedFunctions := [(''foo'', \<lparr>pMap = [(''int'', 1)], retType = ''int''\<rparr>)],
        unnamedFunctions := [\<lparr>pMap = [(''int'', 1)], retType = ''int''\<rparr>]\<rparr>"

text \<open>A catalog in which an anonymous declaration is structurally identical to a named
  one.\<close>

definition overlapping :: "Declarations \<Rightarrow> bool" where
  "overlapping d =
     ((\<exists>u \<in> set (unnamedFunctions d). u \<in> snd ` set (namedFunctions d)) \<or>
      (\<exists>u \<in> set (unnamedStructs d). u \<in> snd ` set (structs d)))"

section \<open>Properties\<close>

subsection \<open>The parser on identifiers, spaces and asterisks\<close>

lemma isIdentifierChar_neq:
  "isIdentifierChar c \<Longrightarrow> c \<noteq> CHR '' '' \<and> c \<noteq> CHR ''*'' \<and> c \<noteq> CHR ''%'' \<and> c \<noteq> CHR 0x00"
  by (auto simp: isIdentifierChar_def isAlphanumeric_def isalpha_def)

lemma isalpha_isIdentifierChar: "isalpha c \<or> c = CHR ''_'' \<Longrightarrow> isIdentifierChar c"
  by (auto simp: isIdentifierChar_def isAlphanumeric_def)

lemma validIdentifier_chars: "validIdentifier nm \<Longrightarrow> \<forall>c \<in> set nm. isIdentifierChar c"
  by (cases nm) (auto simp: validIdentifier_def isalpha_isIdentifierChar)

lemma char_at_append_right: "char_at (a @ b) (length a + i) = char_at b i"
  by (simp add: char_at_def nth_append)

lemma char_at_append_right0: "char_at (a @ b) (length a) = char_at b 0"
  using char_at_append_right [of a b 0] by simp

lemma char_at_Cons0: "char_at (c # b) 0 = c"
  by (simp add: char_at_def)

lemma char_at_hd: "char_at b 0 = (if b = [] then CHR 0x00 else hd b)"
  by (cases b) (simp_all add: char_at_def)

lemma skipSpaces_run:
  "r = [] \<or> hd r \<noteq> CHR '' '' \<Longrightarrow>
   skipSpaces (a @ replicate k CHR '' '' @ r) (length a) = length a + k"
proof (induction k arbitrary: a)
  case 0
  then show ?case
    by (subst skipSpaces.simps) (auto simp: char_at_append_right0 char_at_hd)
next
  case (Suc k)
  have "skipSpaces ((a @ [CHR '' '']) @ replicate k CHR '' '' @ r) (length (a @ [CHR '' ''])) =
        length (a @ [CHR '' '']) + k"
    using Suc.prems by (rule Suc.IH)
  then show ?case
    by (subst skipSpaces.simps) (simp add: char_at_append_right0 char_at_Cons0)
qed

lemma scanIdentifier_run:
  "\<forall>c \<in> set b. isIdentifierChar c \<Longrightarrow> r = [] \<or> \<not> isIdentifierChar (hd r) \<Longrightarrow>
   scanIdentifier (a @ b @ r) (length a) acc = (length a + length b, acc @ b)"
proof (induction b arbitrary: a acc)
  case Nil
  then show ?case
    using isIdentifierChar_neq [of "CHR 0x00"]
    by (subst scanIdentifier.simps) (auto simp: char_at_append_right0 char_at_hd isIdentifierChar_def)
next
  case (Cons c b)
  have "scanIdentifier ((a @ [c]) @ b @ r) (length (a @ [c])) (acc @ [c]) =
        (length (a @ [c]) + length b, (acc @ [c]) @ b)"
    using Cons.prems by (intro Cons.IH) auto
  moreover have "isIdentifierChar c" using Cons.prems by simp
  ultimately show ?case
    by (subst scanIdentifier.simps)
       (simp add: char_at_append_right0 char_at_Cons0 isIdentifierChar_def)
qed

lemma scanAsterisks_ok:
  "scanAsterisks (a @ replicate n CHR ''*'') (length a) ret =
   Inr (ret\<lparr>pointers := pointers ret + of_nat n\<rparr>)"
proof (induction n arbitrary: a ret)
  case 0
  show ?case by (subst scanAsterisks.simps) simp
next
  case (Suc n)
  have "scanAsterisks ((a @ [CHR ''*'']) @ replicate n CHR ''*'') (length (a @ [CHR ''*'']))
          (ret\<lparr>pointers := pointers ret + 1\<rparr>) =
        Inr (ret\<lparr>pointers := pointers ret + 1\<rparr>
               \<lparr>pointers := pointers (ret\<lparr>pointers := pointers ret + 1\<rparr>) + of_nat n\<rparr>)"
    by (rule Suc.IH)
  then show ?case
    by (subst scanAsterisks.simps)
       (simp add: char_at_append_right0 char_at_Cons0 add.assoc add.commute)
qed


lemma split_at_first_other:
  "\<forall>x \<in> set a. P x \<Longrightarrow> \<forall>x \<in> set c. P x \<Longrightarrow> b \<noteq> [] \<Longrightarrow> \<not> P (hd b) \<Longrightarrow>
   d \<noteq> [] \<Longrightarrow> \<not> P (hd d) \<Longrightarrow> a @ b = c @ d \<Longrightarrow> a = c"
proof (induction a arbitrary: c)
  case Nil
  then show ?case by (cases c) auto
next
  case (Cons x a)
  then show ?case by (cases c) auto
qed

lemma no_struct_prefix:
  assumes "\<forall>c \<in> set nm. isIdentifierChar c" "nm \<noteq> ''struct''"
    and "t = [] \<or> \<not> isIdentifierChar (hd t)"
  shows "substr (nm @ t) 0 (length structPrefix) \<noteq> structPrefix"
proof
  assume eq: "substr (nm @ t) 0 (length structPrefix) = structPrefix"
  have len: "length structPrefix = 7"
    by (simp add: structPrefix_def)
  have tk: "take 7 (nm @ t) = ''struct ''"
    using eq by (simp only: substr_def len drop_0) (simp only: structPrefix_def)
  have "nm @ t = ''struct '' @ drop 7 (nm @ t)"
    using tk by (metis append_take_drop_id)
  then have dec: "nm @ t = ''struct'' @ (CHR '' '' # drop 7 (nm @ t))"
    by (simp del: drop_append)
  have st: "\<forall>x \<in> set ''struct''. isIdentifierChar x"
    by (simp add: isIdentifierChar_def isAlphanumeric_def isalpha_def)
  have sp: "\<not> isIdentifierChar CHR '' ''"
    using isIdentifierChar_neq by blast
  show False
  proof (cases "t = []")
    case True
    then have "CHR '' '' \<in> set nm" using dec by (metis append_Nil2 in_set_conv_decomp)
    then show False using assms(1) sp by blast
  next
    case False
    then have "nm = ''struct''"
      using split_at_first_other [where P = isIdentifierChar, OF assms(1) st False _ _ _ dec]
        assms(3) sp by simp
    then show False using assms(2) by simp
  qed
qed

lemma substr_skip_prefix: "substr (pre @ s) (length pre) n = substr s 0 n"
  by (simp add: substr_def)

lemma parseType_identifier:
  assumes pre: "pre = (if v then ''%'' else [])"
    and vid: "validIdentifier nm"
    and nsp: "substr (nm @ t) 0 (length structPrefix) \<noteq> structPrefix"
    and t: "t = [] \<or> \<not> isIdentifierChar (hd t)"
    and s: "s = pre @ nm @ t"
  shows "parseType s =
     (let ret = \<lparr>isVar = v, name = nm, pointers = 0\<rparr>
      in if t = [] then Inr ret
         else (let pos3 = skipSpaces s (length pre + length nm)
               in if pos3 = length s then Inl (ParseTypeError s pos3)
                  else scanAsterisks s pos3 ret))"
proof -
  obtain c cs where nm: "nm = c # cs"
    using vid by (cases nm) (auto simp: validIdentifier_def)
  have c: "isalpha c \<or> c = CHR ''_''" and cs: "\<forall>x \<in> set cs. isIdentifierChar x"
    using vid by (auto simp: validIdentifier_def nm)
  have cne: "c \<noteq> CHR ''%''"
    using isIdentifierChar_neq [of c] isalpha_isIdentifierChar [OF c] by simp
  have v: "(char_at s 0 = CHR ''%'') = v"
    using cne by (cases v) (simp_all add: s pre nm char_at_Cons0)
  have lp: "(if v then 1 else 0) = length pre"
    by (simp add: pre)
  have sub: "substr s (length pre) (length structPrefix) \<noteq> structPrefix"
    using nsp by (simp add: s substr_skip_prefix)
  have at1: "char_at s (length pre) = c"
    by (simp add: s nm char_at_append_right0 char_at_Cons0)
  have "scanIdentifier ((pre @ [c]) @ cs @ t) (length (pre @ [c])) [c] =
        (length (pre @ [c]) + length cs, [c] @ cs)"
    using cs t by (rule scanIdentifier_run)
  then have scan: "scanIdentifier s (Suc (length pre)) [c] = (length pre + length nm, nm)"
    by (simp add: s nm)
  have len: "(length pre + length nm = length s) = (t = [])"
    by (simp add: s)
  show ?thesis
    unfolding parseType_def Let_def v lp
    using sub c by (simp add: at1 scan len)
qed



subsection \<open>Rendering and parsing back\<close>

text \<open>
  Claim C6, amended. For every descriptor whose name is a valid identifier and whose
  pointer count is not negative, parsing the rendered text gives the descriptor back,
  provided the name is not the word \<open>struct\<close> or the pointer count is zero. (The rendering
  of the name \<open>struct\<close> with a pointer suffix starts with the prefix that the parser skips.)
\<close>

theorem parseType_toString:
  assumes vid: "validIdentifier (name d)"
    and nonneg: "0 \<le> sint (pointers d)"
    and nostruct: "name d \<noteq> ''struct'' \<or> pointers d = 0"
  shows "parseType (toString d) = Inr d"
proof -
  define pre where "pre = (if isVar d then ''%'' else [])"
  define t where "t = (if 0 <s pointers d
                       then CHR '' '' # replicate (nat (sint (pointers d))) CHR ''*'' else [])"
  have s: "toString d = pre @ name d @ t"
    by (simp add: toString_def pre_def t_def)
  have chars: "\<forall>c \<in> set (name d). isIdentifierChar c"
    using vid by (rule validIdentifier_chars)
  have t: "t = [] \<or> \<not> isIdentifierChar (hd t)"
    using isIdentifierChar_neq [of "CHR '' ''"] by (auto simp: t_def)
  have nsp: "substr (name d @ t) 0 (length structPrefix) \<noteq> structPrefix"
  proof (cases "name d = ''struct''")
    case True
    then have "t = []" using nostruct by (simp add: t_def word_sless_alt)
    then show ?thesis using True
      by (simp add: substr_def structPrefix_def)
  next
    case False
    then show ?thesis using chars t by (intro no_struct_prefix)
  qed
  note P = parseType_identifier [OF pre_def vid nsp t s]
  show ?thesis
  proof (cases "0 <s pointers d")
    case False
    then have "pointers d = 0"
      using nonneg by (simp add: word_sless_alt) (metis sint_0 signed_word_eqI)
    then show ?thesis using P by (simp add: t_def)
  next
    case True
    define n where "n = nat (sint (pointers d))"
    have n: "0 < n" using True by (simp add: n_def word_sless_alt)
    have tt: "t = replicate 1 CHR '' '' @ replicate n CHR ''*''"
      using True by (simp add: t_def n_def)
    have "hd (replicate n CHR ''*'') \<noteq> CHR '' ''" using n by (cases n) auto
    then have "skipSpaces ((pre @ name d) @ replicate 1 CHR '' '' @ replicate n CHR ''*'')
                 (length (pre @ name d)) = length (pre @ name d) + 1"
      by (intro skipSpaces_run) simp
    then have sk: "skipSpaces (toString d) (length pre + length (name d)) =
                   length (pre @ name d @ '' '')"
      by (simp add: s tt)
    have sa: "scanAsterisks ((pre @ name d @ '' '') @ replicate n CHR ''*'')
                (length (pre @ name d @ '' ''))
                \<lparr>isVar = isVar d, name = name d, pointers = 0\<rparr> =
              Inr (\<lparr>isVar = isVar d, name = name d, pointers = 0\<rparr>
                     \<lparr>pointers := pointers \<lparr>isVar = isVar d, name = name d, pointers = 0\<rparr> + of_nat n\<rparr>)"
      by (rule scanAsterisks_ok)
    have s2: "toString d = (pre @ name d @ '' '') @ replicate n CHR ''*''"
      by (simp add: s tt)
    have ne: "length (pre @ name d @ '' '') \<noteq> length (toString d)"
      using n by (simp add: s2)
    have "parseType (toString d) =
          Inr \<lparr>isVar = isVar d, name = name d, pointers = of_nat n\<rparr>"
      using P ne sa by (simp add: sk tt Let_def) (simp add: s2)
    also have "of_nat n = pointers d"
      using nonneg by (simp add: n_def)
    finally show ?thesis by simp
  qed
qed

theorem parseType_toString_witness:
  "validIdentifier ''node'' \<and> parseType (toString \<lparr>isVar = True, name = ''node'', pointers = 2\<rparr>)
     = Inr \<lparr>isVar = True, name = ''node'', pointers = 2\<rparr>"
  using parseType_toString [of "\<lparr>isVar = True, name = ''node'', pointers = 2\<rparr>"]
  by (simp add: validIdentifier_def isIdentifierChar_def isAlphanumeric_def isalpha_def)

text \<open>
  Claim C6 as stated fails: \<open>struct\<close> is a valid identifier, and the rendering of the
  descriptor with that name and one pointer is rejected at position 7.
\<close>

theorem parseType_toString_struct_counterexample:
  "validIdentifier ''struct'' \<and> 0 \<le> sint (1 :: cint) \<and>
   parseType (toString \<lparr>isVar = False, name = ''struct'', pointers = 1\<rparr>) =
     Inl (ParseTypeError ''struct *'' 7)"
  by code_simp

subsection \<open>The pointer suffix\<close>




subsection \<open>The ordered maps and the observation pass\<close>

lemma key_map_insert_iff: "x \<in> fst ` set (map_insert k v m) \<longleftrightarrow> x = k \<or> x \<in> fst ` set m"
  by (induction m) force+

lemma set_map_insert: "fst ` set (map_insert k v m) = insert k (fst ` set m)"
  using key_map_insert_iff [of _ k v m] by blast

lemma map_find_Nil: "map_find k [] = None"
  by (simp add: map_find_def)

lemma sorted_keys_Nil: "sorted_keys []"
  by (simp add: sorted_keys_def)

lemma sorted_keys_map_insert: "sorted_keys m \<Longrightarrow> sorted_keys (map_insert k v m)"
proof (induction m)
  case Nil
  then show ?case by (simp add: sorted_keys_def)
next
  case (Cons e m)
  obtain k' v' where e: "e = (k', v')" by (cases e)
  have tl: "sorted_keys m" using Cons.prems by (simp add: sorted_keys_def)
  have "\<forall>x \<in> fst ` set (map_insert k v m). k' < x" if "k' < k"
    using that Cons.prems by (auto simp: set_map_insert sorted_keys_def e)
  then show ?case
    using Cons.prems Cons.IH [OF tl] by (auto simp: sorted_keys_def e)
qed

lemma map_find_sorted_less:
  "sorted_keys ((k', v') # m) \<Longrightarrow> k \<le> k' \<Longrightarrow> map_find k m = None"
  by (auto simp: sorted_keys_def map_find_def map_of_eq_None_iff)

lemma map_find_map_insert:
  "sorted_keys m \<Longrightarrow>
   map_find x (map_insert k v m) =
     (if x = k then (case map_find k m of None \<Rightarrow> Some v | Some w \<Rightarrow> Some w) else map_find x m)"
proof (induction m)
  case Nil
  then show ?case by (simp add: map_find_def)
next
  case (Cons e m)
  obtain k' v' where e: "e = (k', v')" by (cases e)
  have tl: "sorted_keys m" using Cons.prems by (simp add: sorted_keys_def)
  have none: "map_find k m = None" if "k \<le> k'"
    using Cons.prems that unfolding e by (rule map_find_sorted_less)
  show ?case
  proof (cases "k < k'")
    case True
    then show ?thesis using none by (auto simp: e map_find_def)
  next
    case False
    then show ?thesis using Cons.IH [OF tl] by (auto simp: e map_find_def)
  qed
qed

text \<open>Inserting a sequence of entries: the first entry for a key stays.\<close>

lemma sorted_keys_fold_insert:
  "sorted_keys m \<Longrightarrow> sorted_keys (fold (\<lambda>x. map_insert (key x) (val x)) xs m)"
  by (induction xs arbitrary: m) (simp_all add: sorted_keys_map_insert)

lemma map_find_fold_insert:
  "sorted_keys m \<Longrightarrow>
   map_find k (fold (\<lambda>x. map_insert (key x) (val x)) xs m) =
     (case map_find k m of
        Some w \<Rightarrow> Some w
      | None \<Rightarrow> map_option val (find (\<lambda>x. key x = k) xs))"
proof (induction xs arbitrary: m)
  case Nil
  then show ?case by (simp split: option.splits)
next
  case (Cons x xs)
  have "sorted_keys (map_insert (key x) (val x) m)"
    using Cons.prems by (rule sorted_keys_map_insert)
  then show ?case
    using Cons.prems by (simp add: Cons.IH map_find_map_insert split: option.splits)
qed

lemma keys_fold_insert:
  "fst ` set (fold (\<lambda>x. map_insert (key x) (val x)) xs m) = key ` set xs \<union> fst ` set m"
  by (induction xs arbitrary: m) (auto simp: set_map_insert)

text \<open>The four maps after a pass, as sequences of insertions.\<close>

lemma observe_Nil: "observe [] st = st"
  by (simp add: observe_def)

lemma observe_Cons: "observe (n # nodes) st = observe nodes (check n st)"
  by (simp add: observe_def)

lemma check_decls: "decls (check n st) = decls st"
  by (cases n)
     (auto simp: checkFun_def checkStruct_def checkTypedef_def Let_def split: option.splits)

lemma observe_decls: "decls (observe nodes st) = decls st"
  by (induction nodes arbitrary: st) (simp_all add: observe_Nil observe_Cons check_decls)

lemma check_foundFuncs:
  "foundFuncs (check n st) =
   fold (\<lambda>f. map_insert (funName f) (signatureOf f))
        (filter (\<lambda>f. funName f \<noteq> ''main'') (functionNodes [n])) (foundFuncs st)"
  by (cases n)
     (auto simp: functionNodes_def checkFun_def checkStruct_def checkTypedef_def
           signatureOf_def Let_def split: option.splits)


lemma check_foundStructs:
  "foundStructs (check n st) =
   fold (\<lambda>e. map_insert (fst e) (shapeOf (snd e))) (recordNodes [n]) (foundStructs st)"
  by (cases n)
     (auto simp: recordNodes_def checkFun_def checkStruct_def checkTypedef_def
           shapeOf_def Let_def split: option.splits)

lemma functionNodes_Cons: "functionNodes (n # nodes) = functionNodes [n] @ functionNodes nodes"
  by (simp add: functionNodes_def)

lemma recordNodes_Cons: "recordNodes (n # nodes) = recordNodes [n] @ recordNodes nodes"
  by (simp add: recordNodes_def)

lemma observe_foundFuncs:
  "foundFuncs (observe nodes st) =
   fold (\<lambda>f. map_insert (funName f) (signatureOf f))
        (filter (\<lambda>f. funName f \<noteq> ''main'') (functionNodes nodes)) (foundFuncs st)"
proof (induction nodes arbitrary: st)
  case Nil
  then show ?case by (simp add: observe_Nil functionNodes_def)
next
  case (Cons n nodes)
  show ?case
    by (subst functionNodes_Cons) (simp add: observe_Cons Cons.IH check_foundFuncs)
qed


lemma observe_foundStructs:
  "foundStructs (observe nodes st) =
   fold (\<lambda>e. map_insert (fst e) (shapeOf (snd e))) (recordNodes nodes) (foundStructs st)"
proof (induction nodes arbitrary: st)
  case Nil
  then show ?case by (simp add: observe_Nil recordNodes_def)
next
  case (Cons n nodes)
  show ?case
    by (subst recordNodes_Cons) (simp add: observe_Cons Cons.IH check_foundStructs)
qed

lemma find_filter_neq:
  "k \<noteq> m \<Longrightarrow> find (\<lambda>x. key x = k) (filter (\<lambda>x. key x \<noteq> m) xs) = find (\<lambda>x. key x = k) xs"
  by (induction xs) auto

lemma find_filter_same:
  "find (\<lambda>x. key x = m) (filter (\<lambda>x. key x \<noteq> m) xs) = None"
  by (induction xs) auto

lemma foundFuncs_lookup:
  "map_find n (foundFuncs (observe nodes (initialState d))) =
     (if n = ''main'' then None
      else map_option signatureOf (find (\<lambda>f. funName f = n) (functionNodes nodes)))"
  by (simp add: observe_foundFuncs map_find_fold_insert sorted_keys_Nil initialState_def
        find_filter_neq find_filter_same map_find_Nil)


lemma foundStructs_lookup:
  "map_find n (foundStructs (observe nodes (initialState d))) =
     map_option (\<lambda>e. shapeOf (snd e)) (find (\<lambda>e. fst e = n) (recordNodes nodes))"
  by (simp add: observe_foundStructs map_find_fold_insert sorted_keys_Nil initialState_def
        map_find_Nil)

lemma observe_skips_main:
  "observe nodes st = observe (filter (\<lambda>n. \<not> isMainFunction n) nodes) st"
proof (induction nodes arbitrary: st)
  case Nil
  then show ?case by simp
next
  case (Cons n nodes)
  have "isMainFunction n \<Longrightarrow> check n st = st"
    by (cases n) (auto simp: isMainFunction_def checkFun_def)
  then show ?case
    by (simp add: observe_Cons Cons.IH [of "check n st"])
qed

subsection \<open>The matching loops\<close>

lemma map_find_map_erase:
  "map_find x (map_erase k m) = (if x = k then None else map_find x m)"
  by (induction m) (auto simp: map_find_def map_erase_def)

lemma map_erase_absent: "map_find k m = None \<Longrightarrow> map_erase k m = m"
  by (induction m) (auto simp: map_find_def map_erase_def split: if_splits)

lemma map_erase_filter:
  "map_erase k (filter (\<lambda>e. fst e \<notin> S) m) = filter (\<lambda>e. fst e \<notin> insert k S) m"
  by (induction m) (auto simp: map_erase_def)

lemma filter_keys_erase:
  "filter (\<lambda>e. fst e \<notin> S) (map_erase k m) = filter (\<lambda>e. fst e \<notin> insert k S) m"
  by (induction m) (auto simp: map_erase_def)

lemma functionMismatches_Cons:
  "functionMismatches loc funcs (func # found) =
   functionMismatches loc funcs [func] @ functionMismatches loc funcs found"
  by (simp add: functionMismatches_def)

lemma functionMismatches_erase:
  "fst func \<notin> fst ` set found \<Longrightarrow>
   functionMismatches loc (map_erase (fst func) funcs) found = functionMismatches loc funcs found"
proof -
  assume a: "fst func \<notin> fst ` set found"
  have "\<And>g. g \<in> set found \<Longrightarrow> map_find (fst g) (map_erase (fst func) funcs) = map_find (fst g) funcs"
    using a by (force simp: map_find_map_erase)
  then show ?thesis
    unfolding functionMismatches_def by (intro arg_cong [where f = concat] map_cong) auto
qed

lemma matchFunctions_closed:
  "distinct (map fst found) \<Longrightarrow>
   \<exists>unnamed'. matchFunctions locs found (funcs, unnamed, diags) =
     (filter (\<lambda>e. fst e \<notin> fst ` set found) funcs, unnamed',
      diags @ functionMismatches (\<lambda>nm. map_find nm locs) funcs found)"
proof (induction found arbitrary: funcs unnamed diags)
  case Nil
  then show ?case by (simp add: matchFunctions_def functionMismatches_def)
next
  case (Cons func found)
  have d: "distinct (map fst found)" and nin: "fst func \<notin> fst ` set found"
    using Cons.prems by auto
  obtain unnamed1 where step:
    "matchFunction locs func (funcs, unnamed, diags) =
       (map_erase (fst func) funcs, unnamed1,
        diags @ functionMismatches (\<lambda>nm. map_find nm locs) funcs [func])"
    by (cases "map_find (fst func) funcs")
       (auto simp: matchFunction_def functionMismatches_def map_erase_absent)
  obtain unnamed' where rest:
    "matchFunctions locs found (map_erase (fst func) funcs, unnamed1,
        diags @ functionMismatches (\<lambda>nm. map_find nm locs) funcs [func]) =
     (filter (\<lambda>e. fst e \<notin> fst ` set found) (map_erase (fst func) funcs), unnamed',
      (diags @ functionMismatches (\<lambda>nm. map_find nm locs) funcs [func]) @
      functionMismatches (\<lambda>nm. map_find nm locs) (map_erase (fst func) funcs) found)"
    using Cons.IH [OF d] by blast
  have "matchFunctions locs (func # found) (funcs, unnamed, diags) =
        matchFunctions locs found (matchFunction locs func (funcs, unnamed, diags))"
    by (simp add: matchFunctions_def)
  then show ?case
    using step rest nin
    by (simp add: filter_keys_erase functionMismatches_erase
          functionMismatches_Cons [of _ funcs func found])
qed

lemma structMismatches_Cons:
  "structMismatches loc strs (rcd # found) =
   structMismatches loc strs [rcd] @ structMismatches loc strs found"
  by (simp add: structMismatches_def)

lemma structMismatches_erase:
  "fst rcd \<notin> fst ` set found \<Longrightarrow>
   structMismatches loc (map_erase (fst rcd) strs) found = structMismatches loc strs found"
proof -
  assume a: "fst rcd \<notin> fst ` set found"
  have "\<And>g. g \<in> set found \<Longrightarrow> map_find (fst g) (map_erase (fst rcd) strs) = map_find (fst g) strs"
    using a by (force simp: map_find_map_erase)
  then show ?thesis
    unfolding structMismatches_def by (intro arg_cong [where f = concat] map_cong) auto
qed

lemma matchStructs_closed:
  "distinct (map fst found) \<Longrightarrow>
   \<exists>varStrs' unnamed'. matchStructs locs found (strs, varStrs, unnamed, diags) =
     (filter (\<lambda>e. fst e \<notin> fst ` set found) strs, varStrs', unnamed',
      diags @ structMismatches (\<lambda>nm. map_find nm locs) strs found)"
proof (induction found arbitrary: strs varStrs unnamed diags)
  case Nil
  then show ?case by (simp add: matchStructs_def structMismatches_def)
next
  case (Cons rcd found)
  have d: "distinct (map fst found)" and nin: "fst rcd \<notin> fst ` set found"
    using Cons.prems by auto
  obtain varStrs1 unnamed1 where step:
    "matchStruct locs rcd (strs, varStrs, unnamed, diags) =
       (map_erase (fst rcd) strs, varStrs1, unnamed1,
        diags @ structMismatches (\<lambda>nm. map_find nm locs) strs [rcd])"
    by (cases "map_find (fst rcd) strs"; cases "find (\<lambda>pm. snd pm = snd rcd) varStrs")
       (auto simp: matchStruct_def structMismatches_def map_erase_absent)
  obtain varStrs' unnamed' where rest:
    "matchStructs locs found (map_erase (fst rcd) strs, varStrs1, unnamed1,
        diags @ structMismatches (\<lambda>nm. map_find nm locs) strs [rcd]) =
     (filter (\<lambda>e. fst e \<notin> fst ` set found) (map_erase (fst rcd) strs), varStrs', unnamed',
      (diags @ structMismatches (\<lambda>nm. map_find nm locs) strs [rcd]) @
      structMismatches (\<lambda>nm. map_find nm locs) (map_erase (fst rcd) strs) found)"
    using Cons.IH [OF d] by blast
  have "matchStructs locs (rcd # found) (strs, varStrs, unnamed, diags) =
        matchStructs locs found (matchStruct locs rcd (strs, varStrs, unnamed, diags))"
    by (simp add: matchStructs_def)
  then show ?case
    using step rest nin
    by (simp add: filter_keys_erase structMismatches_erase
          structMismatches_Cons [of _ strs rcd found])
qed

lemma sorted_keys_distinct: "sorted_keys m \<Longrightarrow> distinct (map fst m)"
  by (simp add: sorted_keys_def strict_sorted_iff)

text \<open>What a run reports about the named functions and structs, for any state in which
  the observed maps have distinct keys.\<close>

lemma onEndOfTranslationUnit_named:
  assumes "distinct (map fst (foundFuncs st))" "distinct (map fst (foundStructs st))"
  shows "missingFunctions (onEndOfTranslationUnit st) =
           filter (\<lambda>e. fst e \<notin> fst ` set (foundFuncs st)) (resolvedFunctions st)"
    and "missingStructs (onEndOfTranslationUnit st) =
           filter (\<lambda>e. fst e \<notin> fst ` set (foundStructs st)) (resolvedStructs st)"
    and "diagnostics (onEndOfTranslationUnit st) =
           functionMismatches (\<lambda>nm. map_find nm (funcLocMap st)) (resolvedFunctions st) (foundFuncs st) @
           structMismatches (\<lambda>nm. map_find nm (funcLocMap st)) (resolvedStructs st) (foundStructs st)"
proof -
  obtain varMap e0 where b: "bindVariables (varStructs (decls st)) (foundStructs st) = (varMap, e0)"
    by (cases "bindVariables (varStructs (decls st)) (foundStructs st)")
  obtain funcs e1 where f: "resolveNamedFunctions (namedFunctions (decls st)) varMap = (funcs, e1)"
    by (cases "resolveNamedFunctions (namedFunctions (decls st)) varMap")
  obtain strs e2 where s: "resolveNamedStructs (structs (decls st)) varMap = (strs, e2)"
    by (cases "resolveNamedStructs (structs (decls st)) varMap")
  obtain uf e3 where uf: "resolveUnnamedFunctions (unnamedFunctions (decls st)) varMap = (uf, e3)"
    by (cases "resolveUnnamedFunctions (unnamedFunctions (decls st)) varMap")
  obtain us e4 where us: "resolveUnnamedStructs (unnamedStructs (decls st)) varMap = (us, e4)"
    by (cases "resolveUnnamedStructs (unnamedStructs (decls st)) varMap")
  obtain vs e5 where vs: "resolveNamedStructs (varStructs (decls st)) varMap = (vs, e5)"
    by (cases "resolveNamedStructs (varStructs (decls st)) varMap")
  obtain uf' where mf:
    "matchFunctions (funcLocMap st) (foundFuncs st) (funcs, uf, []) =
       (filter (\<lambda>e. fst e \<notin> fst ` set (foundFuncs st)) funcs, uf',
        [] @ functionMismatches (\<lambda>nm. map_find nm (funcLocMap st)) funcs (foundFuncs st))"
    using matchFunctions_closed [OF assms(1)] by blast
  obtain vs' us' where ms:
    "matchStructs (funcLocMap st) (foundStructs st)
        (strs, vs, us, functionMismatches (\<lambda>nm. map_find nm (funcLocMap st)) funcs (foundFuncs st)) =
       (filter (\<lambda>e. fst e \<notin> fst ` set (foundStructs st)) strs, vs', us',
        functionMismatches (\<lambda>nm. map_find nm (funcLocMap st)) funcs (foundFuncs st) @
        structMismatches (\<lambda>nm. map_find nm (funcLocMap st)) strs (foundStructs st))"
    using matchStructs_closed [OF assms(2)] by blast
  have rf: "resolvedFunctions st = funcs" and rs: "resolvedStructs st = strs"
    by (simp_all add: resolvedFunctions_def resolvedStructs_def bindings_def b f s)
  show "missingFunctions (onEndOfTranslationUnit st) =
           filter (\<lambda>e. fst e \<notin> fst ` set (foundFuncs st)) (resolvedFunctions st)"
    by (simp add: onEndOfTranslationUnit_def b f s uf us vs mf ms rf)
  show "missingStructs (onEndOfTranslationUnit st) =
           filter (\<lambda>e. fst e \<notin> fst ` set (foundStructs st)) (resolvedStructs st)"
    by (simp add: onEndOfTranslationUnit_def b f s uf us vs mf ms rs)
  show "diagnostics (onEndOfTranslationUnit st) =
           functionMismatches (\<lambda>nm. map_find nm (funcLocMap st)) (resolvedFunctions st) (foundFuncs st) @
           structMismatches (\<lambda>nm. map_find nm (funcLocMap st)) (resolvedStructs st) (foundStructs st)"
    by (simp add: onEndOfTranslationUnit_def b f s uf us vs mf ms rf rs)
qed

lemma observed_distinct:
  "distinct (map fst (foundFuncs (observe nodes (initialState d))))"
  "distinct (map fst (foundStructs (observe nodes (initialState d))))"
  by (simp_all add: observe_foundFuncs observe_foundStructs initialState_def
        sorted_keys_distinct sorted_keys_fold_insert sorted_keys_Nil)

lemma observed_function_keys:
  "fst ` set (foundFuncs (observe nodes (initialState d))) =
   {nm. nm \<noteq> ''main'' \<and> nm \<in> funName ` set (functionNodes nodes)}"
  by (auto simp: observe_foundFuncs keys_fold_insert initialState_def)





subsection \<open>Resolution\<close>







lemma fold_resolve_named:
  "fold (\<lambda>e (m, errs). case res (snd e) of
                          Inr r \<Rightarrow> (map_insert (fst e) r m, errs)
                        | Inl x \<Rightarrow> (m, errs @ [DeclSkipped x (fst e)])) es (m0, errs0) =
   (fold (\<lambda>e. map_insert (fst e) (snd e)) (List.map_filter (resolvedEntry res) es) m0,
    errs0 @ List.map_filter (skippedEntry (\<lambda>e. res (snd e)) fst) es)"
  by (induction es arbitrary: m0 errs0)
     (auto simp: resolvedEntry_def skippedEntry_def split: sum.splits)


lemma resolveNamedFunctions_filter:
  "resolveNamedFunctions fs varMap =
   (fold (\<lambda>e. map_insert (fst e) (snd e))
         (List.map_filter (resolvedEntry (\<lambda>fd. resolveFunction fd varMap)) fs) [],
    List.map_filter (skippedEntry (\<lambda>e. resolveFunction (snd e) varMap) fst) fs)"
  unfolding resolveNamedFunctions_def
  using fold_resolve_named [of "\<lambda>fd. resolveFunction fd varMap" fs "[]" "[]"] by simp




subsection \<open>A run without a declaration that does not resolve\<close>













subsection \<open>Binding the placeholder variables\<close>






subsection \<open>Loading and registering\<close>


lemma registerMatchers_loaded:
  "DeclFile \<noteq> [] \<Longrightarrow> fromJSON_Declarations j d [] = Inr d' \<Longrightarrow>
   registerMatchers DeclFile (Json j) d = Returned [] (MatchersAdded d')"
  by (simp add: registerMatchers_def readJsonFile_def)



lemma find_overlap_None:
  "(find (\<lambda>it. count_list (map snd m) it \<noteq> 0) us = None) = (\<not> (\<exists>u \<in> set us. u \<in> snd ` set m))"
  by (auto simp: find_None_iff count_list_0_iff)

lemma checkOverlappingDefinitions_cases:
  "(overlapping d \<longrightarrow> (\<exists>errs. checkOverlappingDefinitions d = Exited errs EXIT_FAILURE)) \<and>
   (\<not> overlapping d \<longrightarrow> checkOverlappingDefinitions d = Returned [] ())"
proof (cases "find (\<lambda>it. count_list (map snd (namedFunctions d)) it \<noteq> 0) (unnamedFunctions d)")
  case None
  note n1 = None
  show ?thesis
  proof (cases "find (\<lambda>it. count_list (map snd (structs d)) it \<noteq> 0) (unnamedStructs d)")
    case None
    have "\<not> overlapping d"
      unfolding overlapping_def
      using n1 None find_overlap_None [of "namedFunctions d" "unnamedFunctions d"]
        find_overlap_None [of "structs d" "unnamedStructs d"]
      by blast
    then show ?thesis
      using n1 None by (simp add: checkOverlappingDefinitions_def)
  next
    case (Some it)
    then have "overlapping d"
      unfolding overlapping_def
      using find_overlap_None [of "structs d" "unnamedStructs d"] by auto
    then show ?thesis
      using n1 Some by (simp add: checkOverlappingDefinitions_def)
  qed
next
  case (Some it)
  then have "overlapping d"
    unfolding overlapping_def
    using find_overlap_None [of "namedFunctions d" "unnamedFunctions d"] by auto
  then show ?thesis
    using Some by (simp add: checkOverlappingDefinitions_def)
qed

lemma registerMatchers_earlier_loaded:
  assumes "DeclFile \<noteq> []" "fromJSON_Declarations_earlier j d [] = Inr d'"
  shows "(overlapping d' \<longrightarrow>
            (\<exists>errs. registerMatchers_earlier DeclFile (Json j) d = Exited errs EXIT_FAILURE)) \<and>
         (\<not> overlapping d' \<longrightarrow>
            registerMatchers_earlier DeclFile (Json j) d = Returned [] (MatchersAdded d'))"
  using checkOverlappingDefinitions_cases [of d'] assms
  by (auto simp: registerMatchers_earlier_def readJsonFile_def)

subsection \<open>Duplicate names among the observed declarations\<close>

text \<open>
  Claim C4, amended. After a pass, the observed-functions map holds for every name other
  than \<open>main\<close> the signature of the first function declaration with that name in traversal
  order, and the observed-records map holds the shape of the first record stored under the
  name: \<^verbatim>\<open>insert\<close> keeps the entry that is already there, so the first write wins.
\<close>

theorem observed_maps_keep_first:
  "map_find nm (foundFuncs (observe nodes (initialState d))) =
     (if nm = ''main'' then None
      else map_option signatureOf (find (\<lambda>f. funName f = nm) (functionNodes nodes))) \<and>
   map_find nm (foundStructs (observe nodes (initialState d))) =
     map_option (\<lambda>e. shapeOf (snd e)) (find (\<lambda>e. fst e = nm) (recordNodes nodes))"
  by (simp add: foundFuncs_lookup foundStructs_lookup)

theorem observed_maps_keep_first_witness:
  "map_find ''f'' (foundFuncs (observe twoDeclarationsOfF (initialState emptyDeclarations))) =
     Some \<lparr>pMap = [(''int'', 1)], retType = ''void''\<rparr> \<and>
   map_find ''S'' (foundStructs (observe twoDeclarationsOfS (initialState emptyDeclarations))) =
     Some [(''int'', 1)]"
proof -
  have f: "map_option signatureOf (find (\<lambda>f. funName f = ''f'') (functionNodes twoDeclarationsOfF)) =
           Some \<lparr>pMap = [(''int'', 1)], retType = ''void''\<rparr>"
    by code_simp
  have s: "map_option (\<lambda>e. shapeOf (snd e)) (find (\<lambda>e. fst e = ''S'') (recordNodes twoDeclarationsOfS)) =
           Some [(''int'', 1)]"
    by code_simp
  show ?thesis
    using observed_maps_keep_first [of "''f''" twoDeclarationsOfF emptyDeclarations]
      observed_maps_keep_first [of "''S''" twoDeclarationsOfS emptyDeclarations]
    by (simp add: f s)
qed

text \<open>
  Claim C4 as stated fails: with two declarations of \<open>f\<close> (of \<open>S\<close>) the map does not hold
  the signature (shape) of the last one.
\<close>

theorem last_write_counterexample:
  "map_find ''f'' (foundFuncs (observe twoDeclarationsOfF (initialState emptyDeclarations))) \<noteq>
     Some (signatureOf (\<lparr>funName = ''f'', funParameters = [''char''], funReturnType = ''void'',
                         funLocation = 2\<rparr>)) \<and>
   map_find ''S'' (foundStructs (observe twoDeclarationsOfS (initialState emptyDeclarations))) \<noteq>
     Some (shapeOf \<lparr>recName = ''S'', recFields = [''char''], recLocation = 2\<rparr>)"
  by code_simp

subsection \<open>Matching the observed functions by name\<close>



subsection \<open>The location of a struct mismatch\<close>



subsection \<open>Declarations with an unbound placeholder\<close>



subsection \<open>The function main\<close>

lemma resolvedFunctions_lookup:
  "map_find k (resolvedFunctions st) =
   map_option snd (find (\<lambda>e. fst e = k)
     (List.map_filter (resolvedEntry (\<lambda>fd. resolveFunction fd (bindings st)))
        (namedFunctions (decls st))))"
  by (simp add: resolvedFunctions_def resolveNamedFunctions_filter map_find_fold_insert
        sorted_keys_Nil map_find_Nil)

lemma find_resolved_first:
  "map_of es k = Some d \<Longrightarrow> res d = Inr r \<Longrightarrow>
   find (\<lambda>e. fst e = k) (List.map_filter (resolvedEntry res) es) = Some (k, r)"
  by (induction es) (auto simp: resolvedEntry_def split: sum.splits if_splits)

lemma map_find_filter_keys:
  "k \<notin> S \<Longrightarrow> map_find k (filter (\<lambda>e. fst e \<notin> S) m) = map_find k m"
  by (induction m) (auto simp: map_find_def)

lemma map_find_key: "map_find k m = Some v \<Longrightarrow> k \<in> set (map fst m)"
  by (auto simp: map_find_def dest: map_of_SomeD intro: rev_image_eqI)

lemma missingReport_named_function:
  "k \<in> set (map fst (missingFunctions out)) \<Longrightarrow> k \<in> set (missingReport out)"
  by (auto simp: missingReport_def reportSection_def)

text \<open>
  Claim C8, amended. A function named \<open>main\<close> is never observed: a pass is the pass
  without its \<open>main\<close> nodes, and the observed map has no entry \<open>main\<close>, so no diagnostic
  is ever emitted for it. When the catalog has an expected function \<open>main\<close> and this
  entry resolves, it is still in the map after matching and \<open>main\<close> is reported as
  missing.
\<close>

theorem main_never_observed:
  assumes "st = observe nodes (initialState d)" and "out = onEndOfTranslationUnit st"
  shows "observe nodes st0 = observe (filter (\<lambda>n. \<not> isMainFunction n) nodes) st0 \<and>
         map_find ''main'' (foundFuncs st) = None \<and>
         (map_find ''main'' (namedFunctions d) = Some fd \<and>
          resolveFunction fd (bindings st) = Inr fd' \<longrightarrow>
            map_find ''main'' (missingFunctions out) = Some fd' \<and>
            ''main'' \<in> set (missingReport out))"
proof (intro conjI impI)
  show "observe nodes st0 = observe (filter (\<lambda>n. \<not> isMainFunction n) nodes) st0"
    by (rule observe_skips_main)
  show none: "map_find ''main'' (foundFuncs st) = None"
    by (simp add: assms(1) foundFuncs_lookup)
  assume a: "map_find ''main'' (namedFunctions d) = Some fd \<and>
             resolveFunction fd (bindings st) = Inr fd'"
  have nk: "''main'' \<notin> fst ` set (foundFuncs st)"
    by (simp add: assms(1) observed_function_keys)
  have "find (\<lambda>e. fst e = ''main'')
          (List.map_filter (resolvedEntry (\<lambda>fd. resolveFunction fd (bindings st)))
             (namedFunctions (decls st))) = Some (''main'', fd')"
    using a by (intro find_resolved_first [where d = fd])
               (simp_all add: map_find_def assms(1) observe_decls initialState_def)
  then have "map_find ''main'' (resolvedFunctions st) = Some fd'"
    by (simp add: resolvedFunctions_lookup)
  moreover have "missingFunctions out =
                 filter (\<lambda>e. fst e \<notin> fst ` set (foundFuncs st)) (resolvedFunctions st)"
    using onEndOfTranslationUnit_named(1) [of st] observed_distinct [of nodes d]
    by (simp add: assms)
  ultimately show m: "map_find ''main'' (missingFunctions out) = Some fd'"
    using nk by (simp add: map_find_filter_keys)
  show "''main'' \<in> set (missingReport out)"
    using m by (intro missingReport_named_function map_find_key)
qed

theorem main_never_observed_witness:
  "map_find ''main'' (missingFunctions
     (onEndOfTranslationUnit (observe mainObserved (initialState mainCatalog)))) =
     Some \<lparr>pMap = [], retType = ''int''\<rparr> \<and>
   ''main'' \<in> set (missingReport
     (onEndOfTranslationUnit (observe mainObserved (initialState mainCatalog)))) \<and>
   observe mainObserved (initialState mainCatalog) = initialState mainCatalog"
proof -
  have h: "map_find ''main'' (namedFunctions mainCatalog) = Some \<lparr>pMap = [], retType = ''int''\<rparr> \<and>
           resolveFunction \<lparr>pMap = [], retType = ''int''\<rparr>
             (bindings (observe mainObserved (initialState mainCatalog))) =
           Inr \<lparr>pMap = [], retType = ''int''\<rparr>"
    by code_simp
  have f: "observe (filter (\<lambda>n. \<not> isMainFunction n) mainObserved) (initialState mainCatalog) =
           initialState mainCatalog"
    by code_simp
  note T = main_never_observed [where nodes = mainObserved and d = mainCatalog
        and ?st0.0 = "initialState mainCatalog" and fd = "\<lparr>pMap = [], retType = ''int''\<rparr>"
        and fd' = "\<lparr>pMap = [], retType = ''int''\<rparr>", OF refl refl]
  have a: "map_find ''main'' (missingFunctions
             (onEndOfTranslationUnit (observe mainObserved (initialState mainCatalog)))) =
             Some \<lparr>pMap = [], retType = ''int''\<rparr> \<and>
           ''main'' \<in> set (missingReport
             (onEndOfTranslationUnit (observe mainObserved (initialState mainCatalog))))"
    using T h by blast
  have "observe mainObserved (initialState mainCatalog) =
        observe (filter (\<lambda>n. \<not> isMainFunction n) mainObserved) (initialState mainCatalog)"
    using T by blast
  then have b: "observe mainObserved (initialState mainCatalog) = initialState mainCatalog"
    by (simp only: f)
  show ?thesis
    using a b by blast
qed

text \<open>
  Claim C8 as stated fails for an expected \<open>main\<close> that does not resolve: it is dropped
  before matching and the report is empty.
\<close>

theorem main_unresolved_counterexample:
  "map_find ''main'' (namedFunctions mainUnboundCatalog) =
     Some \<lparr>pMap = [(''%U'', 1)], retType = ''int''\<rparr> \<and>
   missingFunctions (onEndOfTranslationUnit (observe mainObserved (initialState mainUnboundCatalog))) = [] \<and>
   missingReport (onEndOfTranslationUnit (observe mainObserved (initialState mainUnboundCatalog))) = []"
  by code_simp

subsection \<open>Placeholder resolution\<close>




subsection \<open>A configuration that violates the schema\<close>




subsection \<open>The overlap check\<close>

text \<open>
  Claim C9, amended. \<^verbatim>\<open>checkOverlappingDefinitions\<close> ends the process with
  \<^verbatim>\<open>EXIT_FAILURE\<close> exactly when an anonymous function or struct of the catalog is identical
  to a named one, and the earlier revision of \<^verbatim>\<open>registerMatchers\<close> calls it after a
  successful load, before adding a matcher. In the present \<^verbatim>\<open>registerMatchers\<close> the call is
  commented out: every catalog that loads is accepted and the matchers are added.
\<close>

theorem overlap_check_disabled:
  "(overlapping d' \<longrightarrow> (\<exists>errs. checkOverlappingDefinitions d' = Exited errs EXIT_FAILURE)) \<and>
   (\<not> overlapping d' \<longrightarrow> checkOverlappingDefinitions d' = Returned [] ()) \<and>
   (DeclFile \<noteq> [] \<and> fromJSON_Declarations_earlier j d [] = Inr d' \<and> overlapping d' \<longrightarrow>
      (\<exists>errs. registerMatchers_earlier DeclFile (Json j) d = Exited errs EXIT_FAILURE)) \<and>
   (DeclFile \<noteq> [] \<and> fromJSON_Declarations_earlier j d [] = Inr d' \<and> \<not> overlapping d' \<longrightarrow>
      registerMatchers_earlier DeclFile (Json j) d = Returned [] (MatchersAdded d')) \<and>
   (DeclFile \<noteq> [] \<and> fromJSON_Declarations j d [] = Inr d' \<longrightarrow>
      registerMatchers DeclFile (Json j) d = Returned [] (MatchersAdded d'))"
  using checkOverlappingDefinitions_cases [of d'] registerMatchers_earlier_loaded [of DeclFile j d d']
    registerMatchers_loaded [of DeclFile j d d']
  by blast

theorem overlap_check_disabled_witness:
  "overlapping overlapCatalog \<and>
   (\<exists>errs. checkOverlappingDefinitions overlapCatalog = Exited errs EXIT_FAILURE) \<and>
   (\<exists>errs. registerMatchers_earlier ''decl.json'' (Json overlapConfig) emptyDeclarations =
             Exited errs EXIT_FAILURE) \<and>
   registerMatchers ''decl.json'' (Json overlapConfig) emptyDeclarations =
     Returned [] (MatchersAdded overlapCatalog)"
proof -
  have o: "overlapping overlapCatalog"
    by code_simp
  have l: "fromJSON_Declarations overlapConfig emptyDeclarations [] = Inr overlapCatalog"
    by code_simp
  have l': "fromJSON_Declarations_earlier overlapConfig emptyDeclarations [] = Inr overlapCatalog"
    by code_simp
  show ?thesis
    using overlap_check_disabled [of overlapCatalog "''decl.json''" overlapConfig emptyDeclarations]
      o l l'
    by simp
qed

text \<open>
  Claim C9 as stated fails: a catalog with a named function and an identical anonymous one
  is accepted, and the run goes on to its report.
\<close>

theorem overlap_not_checked_counterexample:
  "overlapping overlapCatalog \<and>
   registerMatchers ''decl.json'' (Json overlapConfig) emptyDeclarations =
     Returned [] (MatchersAdded overlapCatalog) \<and>
   missingReport (onEndOfTranslationUnit (observe fooObserved (initialState overlapCatalog))) =
     [''MISSING UNNAMED FUNCTION(s):'', ''(int: 1) -> int'']"
  by code_simp

end
